theory Spec2Isabelle
  imports Complex_Main "HOL-Library.Sublist"
begin

section \<open>JavaScript values used by the utilities\<close>

text \<open>
  A JavaScript number is modelled by its mathematical value when it is finite, and by one
  of the three non-finite values otherwise. Division is the only operation of the sources
  that can leave the finite numbers, and \<open>js_div\<close> says where it does. \<open>js_div\<close>
  divides exactly, without the rounding of doubles; the arithmetic with that rounding
  follows below.
\<close>

datatype jsnum = Finite real | NaN | PosInfinity | NegInfinity

definition js_div :: "real \<Rightarrow> real \<Rightarrow> jsnum" where
  "js_div a b =
     (if b = 0 then (if a = 0 then NaN else if 0 < a then PosInfinity else NegInfinity)
      else Finite (a / b))"


subsection \<open>Binary64 arithmetic\<close>

text \<open>
  What the platform computes is a double at every step. \<open>to_double\<close> rounds a real
  number to the nearest double, ties going to the even significand. The unit in the last
  place of a magnitude \<open>a\<close> with \<open>2 ^ E \<le> a < 2 ^ (E + 1)\<close> is \<open>2 ^ (E - 52)\<close>, the
  exponent \<open>E\<close> staying within -1022..1023: below, the doubles are subnormal, and a
  result of \<open>2 ^ 1024\<close> or more is an infinity. The exponent is found by halving the
  magnitude at most 1024 times, or doubling it at most 1022 times.
\<close>

definition round_half_even :: "real \<Rightarrow> int" where
  "round_half_even r =
     (let f = \<lfloor>r\<rfloor>; d = r - of_int f
      in if d < 1 / 2 then f else if 1 / 2 < d then f + 1 else if even f then f else f + 1)"

fun exponent_up :: "nat \<Rightarrow> real \<Rightarrow> nat" where
  "exponent_up 0 a = 0"
| "exponent_up (Suc k) a = (if 2 \<le> a then Suc (exponent_up k (a / 2)) else 0)"

fun exponent_down :: "nat \<Rightarrow> real \<Rightarrow> nat" where
  "exponent_down 0 a = 0"
| "exponent_down (Suc k) a = (if a < 1 then Suc (exponent_down k (2 * a)) else 0)"

definition ulp :: "real \<Rightarrow> real" where
  "ulp a =
     (if 1 \<le> a then 2 ^ exponent_up 1024 a / 2 ^ 52
      else 1 / 2 ^ (exponent_down 1022 a + 52))"

definition to_double :: "real \<Rightarrow> jsnum" where
  "to_double x =
     (if x = 0 then Finite 0
      else (let u = ulp \<bar>x\<bar>;
                y = of_int (round_half_even (\<bar>x\<bar> / u)) * u
            in if 2 ^ 1024 \<le> y then (if x < 0 then NegInfinity else PosInfinity)
               else Finite (if x < 0 then - y else y)))"

text \<open>
  The sum of two numbers, and the quotient of a number by a finite divisor that is not
  negative (a length or a positive constant in the sources), as the platform computes them.
\<close>

fun fl_add :: "jsnum \<Rightarrow> jsnum \<Rightarrow> jsnum" where
  "fl_add (Finite a) (Finite b) = to_double (a + b)"
| "fl_add NaN y = NaN"
| "fl_add x NaN = NaN"
| "fl_add PosInfinity NegInfinity = NaN"
| "fl_add NegInfinity PosInfinity = NaN"
| "fl_add PosInfinity y = PosInfinity"
| "fl_add NegInfinity y = NegInfinity"
| "fl_add x PosInfinity = PosInfinity"
| "fl_add x NegInfinity = NegInfinity"

definition fl_div :: "jsnum \<Rightarrow> real \<Rightarrow> jsnum" where
  "fl_div x b =
     (case x of
        Finite a \<Rightarrow>
          (if b = 0 then (if a = 0 then NaN else if 0 < a then PosInfinity else NegInfinity)
           else to_double (a / b))
      | other \<Rightarrow> other)"

subsection \<open>Strings\<close>

text \<open>
  Strings are lists of characters. \<open>str_includes line sub\<close> is
  \<^verbatim>\<open>line.includes(sub)\<close>, and \<open>str_split c s\<close> is \<^verbatim>\<open>s.split(c)\<close> for a
  separator of one character: a string with \<open>n\<close> separators splits into \<open>n + 1\<close> pieces,
  so a trailing separator leaves a last, empty piece.
\<close>

fun str_includes :: "string \<Rightarrow> string \<Rightarrow> bool" where
  "str_includes [] sub = (sub = [])"
| "str_includes (c # cs) sub = (prefix sub (c # cs) \<or> str_includes cs sub)"

fun str_split :: "char \<Rightarrow> string \<Rightarrow> string list" where
  "str_split sep [] = [[]]"
| "str_split sep (c # cs) =
     (if c = sep then [] # str_split sep cs
      else (case str_split sep cs of
              [] \<Rightarrow> [[c]]
            | piece # pieces \<Rightarrow> (c # piece) # pieces))"

section \<open>Log scanner (logParser.js)\<close>

text \<open>
  The regular expression \<^verbatim>\<open>/\b503\b/\<close>. A word character is a letter, a digit or the
  underscore; \<^verbatim>\<open>\b\<close> holds between two positions exactly when one side is a word
  character and the other is not, the ends of the string counting as non-word.
\<close>

definition is_word_char :: "char \<Rightarrow> bool" where
  "is_word_char c =
     (let n = (of_char c :: nat) in
      (97 \<le> n \<and> n \<le> 122) \<or> (65 \<le> n \<and> n \<le> 90) \<or> (48 \<le> n \<and> n \<le> 57) \<or> n = 95)"

definition is_word :: "char option \<Rightarrow> bool" where
  "is_word p = (case p of None \<Rightarrow> False | Some c \<Rightarrow> is_word_char c)"

definition word_boundary :: "char option \<Rightarrow> char option \<Rightarrow> bool" where
  "word_boundary prev nxt = (is_word prev \<noteq> is_word nxt)"

definition next_char :: "string \<Rightarrow> char option" where
  "next_char s = (case s of [] \<Rightarrow> None | c # _ \<Rightarrow> Some c)"

text \<open>
  \<open>match_b503b prev s\<close>: the expression matches somewhere in \<open>s\<close>, where \<open>prev\<close> is
  the character in front of \<open>s\<close> (none at the start of the line).
\<close>

fun match_b503b :: "char option \<Rightarrow> string \<Rightarrow> bool" where
  "match_b503b prev [] = False"
| "match_b503b prev (c # cs) =
     ((word_boundary prev (Some c) \<and> prefix ''503'' (c # cs) \<and>
       word_boundary (Some CHR ''3'') (next_char (drop 3 (c # cs))))
      \<or> match_b503b (Some c) cs)"

definition parseOriginErrors :: "string \<Rightarrow> string list" where
  "parseOriginErrors logContent =
     (let lines = str_split CHR 0x0A logContent;
          originErrors =
            filter (\<lambda>line. str_includes line '' 503 '' \<or> match_b503b None line) lines
      in originErrors)"

record cache_stats =
  hitRate :: jsnum
  hitCount :: nat
  missCount :: nat

text \<open>The body of the \<^verbatim>\<open>forEach\<close> callback, on the two counters.\<close>

definition count_line :: "nat \<times> nat \<Rightarrow> string \<Rightarrow> nat \<times> nat" where
  "count_line counts line =
     (case counts of (hits, misses) \<Rightarrow>
        if str_includes line ''HIT'' then (hits + 1, misses)
        else if str_includes line ''MISS'' then (hits, misses + 1)
        else (hits, misses))"

definition analyzeCachePerformance :: "string list \<Rightarrow> cache_stats" where
  "analyzeCachePerformance logs =
     (case foldl count_line (0, 0) logs of (hits, misses) \<Rightarrow>
        let total = hits + misses;
            rate = (if 0 < total then js_div (real hits) (real total) else Finite 0)
        in \<lparr>hitRate = rate, hitCount = hits, missCount = misses\<rparr>)"

section \<open>Incident store (incidentTracker.js)\<close>

text \<open>
  A \<^verbatim>\<open>Date\<close> is its time value, the milliseconds since the epoch; \<^verbatim>\<open>null\<close> is
  \<open>None\<close>. A \<^verbatim>\<open>Date\<close> object is truthy whatever its time value, so
  \<^verbatim>\<open>!inc.resolutionTime\<close> is \<open>resolutionTime inc = None\<close>. The field \<^verbatim>\<open>id\<close> is
  always assigned a number by the source; it is \<open>id_field\<close> here, \<open>id\<close> being the
  identity function of HOL.
\<close>

record incident =
  id_field :: int
  title :: string
  severity :: string
  affectedServices :: "string list"
  detectionTime :: int
  resolutionTime :: "int option"
  rca :: "string option"

type_synonym tracker = "incident list"

text \<open>
  The identifier a caller passes to \<^verbatim>\<open>resolveIncident\<close> is a number or a string, and
  \<^verbatim>\<open>===\<close> compares without conversion: values of different types are never equal.
\<close>

datatype jsval = JNum int | JStr string

fun strict_eq :: "jsval \<Rightarrow> jsval \<Rightarrow> bool" where
  "strict_eq (JNum a) (JNum b) = (a = b)"
| "strict_eq (JStr a) (JStr b) = (a = b)"
| "strict_eq (JNum a) (JStr b) = False"
| "strict_eq (JStr a) (JNum b) = False"

text \<open>
  \<^verbatim>\<open>Array.prototype.find\<close> returns a reference to the first element that satisfies the
  predicate; the reference is the element's position in the array.
\<close>

fun find_first :: "('a \<Rightarrow> bool) \<Rightarrow> 'a list \<Rightarrow> nat option" where
  "find_first P [] = None"
| "find_first P (x # xs) = (if P x then Some 0 else map_option Suc (find_first P xs))"

text \<open>
  Every operation takes the store and returns its result with the new store. The reading
  of the clock made by \<^verbatim>\<open>new Date()\<close> is the argument \<open>now\<close>.
\<close>

definition createIncident ::
  "int \<Rightarrow> string \<Rightarrow> string \<Rightarrow> string list \<Rightarrow> tracker \<Rightarrow> incident \<times> tracker" where
  "createIncident now ttl sev services incidents =
     (let incident = \<lparr>id_field = int (length incidents) + 1, title = ttl, severity = sev,
                       affectedServices = services, detectionTime = now,
                       resolutionTime = None, rca = None\<rparr>
      in (incident, incidents @ [incident]))"

definition resolveIncident ::
  "int \<Rightarrow> jsval \<Rightarrow> string \<Rightarrow> tracker \<Rightarrow> incident option \<times> tracker" where
  "resolveIncident now ident rca_text incidents =
     (case find_first (\<lambda>inc. strict_eq (JNum (id_field inc)) ident) incidents of
        None \<Rightarrow> (None, incidents)
      | Some i \<Rightarrow>
          (let incident = incidents ! i in
           if resolutionTime incident = None
           then (let incident' = incident\<lparr>resolutionTime := Some now, rca := Some rca_text\<rparr>
                 in (Some incident', incidents[i := incident']))
           else (Some incident, incidents)))"

text \<open>
  \<^verbatim>\<open>inc.resolutionTime - inc.detectionTime\<close>: the difference of the time values, where
  \<^verbatim>\<open>null\<close> converts to 0.
\<close>

definition time_between :: "incident \<Rightarrow> int" where
  "time_between inc =
     (case resolutionTime inc of None \<Rightarrow> 0 | Some r \<Rightarrow> r) - detectionTime inc"


text \<open>
  \<open>calculateMTTR\<close> above computes on exact numbers: it is the value that the formula of
  the function denotes. \<open>calculateMTTR_double\<close> is the same function step by step in
  binary64, each subtraction, addition and division rounded to the nearest double: it is the
  number a caller receives, and the one the report prints.
\<close>

definition calculateMTTR_double :: "tracker \<Rightarrow> jsnum" where
  "calculateMTTR_double incidents =
     (let resolved = filter (\<lambda>inc. resolutionTime inc \<noteq> None) incidents in
      if length resolved = 0 then Finite 0
      else (let totalResolutionTime =
                  foldl (\<lambda>sum inc. fl_add sum (to_double (real_of_int (time_between inc))))
                    (Finite 0) resolved
            in fl_div (fl_div totalResolutionTime (real (length resolved))) (1000 * 60 * 60)))"

subsection \<open>Rendering numbers and dates\<close>

definition digit_char :: "nat \<Rightarrow> char" where
  "digit_char d = ''0123456789'' ! d"

fun show_nat :: "nat \<Rightarrow> string" where
  "show_nat n = (if n < 10 then [digit_char n] else show_nat (n div 10) @ [digit_char (n mod 10)])"

declare show_nat.simps [simp del]

definition show_int :: "int \<Rightarrow> string" where
  "show_int i = (if i < 0 then CHR ''-'' # show_nat (nat (- i)) else show_nat (nat i))"

definition pad_start :: "nat \<Rightarrow> string \<Rightarrow> string" where
  "pad_start n s = replicate (n - length s) CHR ''0'' @ s"

fun join_with :: "string \<Rightarrow> string list \<Rightarrow> string" where
  "join_with sep [] = []"
| "join_with sep [x] = x"
| "join_with sep (x # y # ys) = x @ sep @ join_with sep (y # ys)"

text \<open>
  \<^verbatim>\<open>Number.prototype.toFixed(2)\<close>, on the exact value of the double it is applied to:
  the sign, then the integer nearest to a hundred times the magnitude (the larger one on a
  tie), written with at least three digits and a point before the last two. At \<open>10\<^sup>2\<^sup>1\<close> and above JavaScript switches to the exponent
  notation, which this development does not render: the result is \<open>None\<close> there.
\<close>

definition toFixed2 :: "jsnum \<Rightarrow> string option" where
  "toFixed2 x =
     (case x of
        NaN \<Rightarrow> Some ''NaN''
      | PosInfinity \<Rightarrow> Some ''Infinity''
      | NegInfinity \<Rightarrow> Some ''-Infinity''
      | Finite r \<Rightarrow>
          (if 10 ^ 21 \<le> \<bar>r\<bar> then None
           else (let s = (if r < 0 then ''-'' else []);
                     n = nat \<lfloor>\<bar>r\<bar> * 100 + 1 / 2\<rfloor>;
                     m = pad_start 3 (show_nat n);
                     k = length m
                 in Some (s @ take (k - 2) m @ ''.'' @ drop (k - 2) m))))"

text \<open>
  \<^verbatim>\<open>Date.prototype.toISOString\<close>: the UTC calendar date of a time value in the
  proleptic Gregorian calendar, as \<^verbatim>\<open>YYYY-MM-DDTHH:mm:ss.sssZ\<close>; a year outside
  0..9999 is written with a sign and six digits.
\<close>

definition civil_from_days :: "int \<Rightarrow> int \<times> int \<times> int" where
  "civil_from_days days =
     (let z = days + 719468;
          era = z div 146097;
          doe = z mod 146097;
          yoe = (doe - doe div 1460 + doe div 36524 - doe div 146096) div 365;
          doy = doe - (365 * yoe + yoe div 4 - yoe div 100);
          mp = (5 * doy + 2) div 153;
          d = doy - (153 * mp + 2) div 5 + 1;
          m = (if mp < 10 then mp + 3 else mp - 9);
          y = yoe + era * 400 + (if m \<le> 2 then 1 else 0)
      in (y, m, d))"

definition show_year :: "int \<Rightarrow> string" where
  "show_year y =
     (if 0 \<le> y \<and> y \<le> 9999 then pad_start 4 (show_nat (nat y))
      else (if y < 0 then CHR ''-'' else CHR ''+'') # pad_start 6 (show_nat (nat \<bar>y\<bar>)))"

definition toISOString :: "int \<Rightarrow> string" where
  "toISOString t =
     (let ms_per_day = 86400000;
          rest = t mod ms_per_day
      in case civil_from_days (t div ms_per_day) of (y, m, d) \<Rightarrow>
           show_year y @ ''-'' @ pad_start 2 (show_nat (nat m)) @ ''-'' @
           pad_start 2 (show_nat (nat d)) @ ''T'' @
           pad_start 2 (show_nat (nat (rest div 3600000))) @ '':'' @
           pad_start 2 (show_nat (nat (rest div 60000 mod 60))) @ '':'' @
           pad_start 2 (show_nat (nat (rest div 1000 mod 60))) @ ''.'' @
           pad_start 3 (show_nat (nat (rest mod 1000))) @ ''Z'')"

subsection \<open>The Markdown report\<close>

text \<open>
  \<^verbatim>\<open>inc.rca || 'Pending'\<close>: \<^verbatim>\<open>null\<close> and the empty string are the falsy values an
  \<^verbatim>\<open>rca\<close> can take.
\<close>

definition rca_or_pending :: "incident \<Rightarrow> string" where
  "rca_or_pending inc =
     (case rca inc of None \<Rightarrow> ''Pending'' | Some r \<Rightarrow> if r = [] then ''Pending'' else r)"

definition resolution_or_unresolved :: "incident \<Rightarrow> string" where
  "resolution_or_unresolved inc =
     (case resolutionTime inc of None \<Rightarrow> ''Unresolved'' | Some r \<Rightarrow> toISOString r)"

text \<open>The body of the \<^verbatim>\<open>forEach\<close> callback: six appends to the report.\<close>

definition add_incident :: "string \<Rightarrow> incident \<Rightarrow> string" where
  "add_incident report inc =
     (let r1 = report @ ''## Incident #'' @ show_int (id_field inc) @ '': '' @ title inc @ [CHR 0x0A];
          r2 = r1 @ ''- **Severity:** '' @ severity inc @ [CHR 0x0A];
          r3 = r2 @ ''- **Affected Services:** '' @ join_with '', '' (affectedServices inc) @ [CHR 0x0A];
          r4 = r3 @ ''- **Detection Time:** '' @ toISOString (detectionTime inc) @ [CHR 0x0A];
          r5 = r4 @ ''- **Resolution Time:** '' @ resolution_or_unresolved inc @ [CHR 0x0A];
          r6 = r5 @ ''- **RCA:** '' @ rca_or_pending inc @ [CHR 0x0A, CHR 0x0A]
      in r6)"

definition generateMarkdownReport :: "tracker \<Rightarrow> string option" where
  "generateMarkdownReport incidents =
     (let report = ''# Incident Report'' @ [CHR 0x0A, CHR 0x0A];
          report' = foldl add_incident report incidents
      in map_option (\<lambda>mttr. report' @ ''**MTTR:** '' @ mttr @ '' hours'' @ [CHR 0x0A])
           (toFixed2 (calculateMTTR_double incidents)))"

subsection \<open>Sequences of calls\<close>

text \<open>
  A client of the store makes a sequence of calls, each with the reading of the clock at
  the time of the call.
\<close>

datatype call = Create string string "string list" | Resolve jsval string

fun is_create :: "call \<Rightarrow> bool" where
  "is_create (Create ttl sev services) = True"
| "is_create (Resolve ident rca_text) = False"

fun apply_call :: "int \<times> call \<Rightarrow> tracker \<Rightarrow> tracker" where
  "apply_call (now, Create ttl sev services) incidents =
     snd (createIncident now ttl sev services incidents)"
| "apply_call (now, Resolve ident rca_text) incidents =
     snd (resolveIncident now ident rca_text incidents)"

fun run_calls :: "(int \<times> call) list \<Rightarrow> tracker \<Rightarrow> tracker" where
  "run_calls [] incidents = incidents"
| "run_calls (c # cs) incidents = run_calls cs (apply_call c incidents)"

section \<open>Health checker\<close>

text \<open>
  What the network and the timers do is the environment of a probe: the two readings of
  \<^verbatim>\<open>Date.now()\<close>, and which promise of the race settles first, the request (fulfilled
  with a response or rejected with an error, of which the code reads the message) or the
  timer. The parameter \<^verbatim>\<open>timeout\<close> acts only through the timer, so it does not appear.
\<close>

datatype response = Response (resp_status: int)

text \<open>\<^verbatim>\<open>Response.ok\<close> is defined by the Fetch standard: the status is in 200..299.\<close>

definition resp_ok :: "response \<Rightarrow> bool" where
  "resp_ok r = (200 \<le> resp_status r \<and> resp_status r \<le> 299)"

datatype 'a settled = Fulfilled 'a | Rejected string

datatype race_winner = FetchFirst "response settled" | TimerFirst

record probe_env =
  start_time :: int
  settle_time :: int
  winner :: race_winner

record api_health_result =
  url :: string
  status :: "int option"
  responseTime :: int
  healthy :: bool
  error :: "string option"

definition fetchWithTimeout :: "race_winner \<Rightarrow> response settled" where
  "fetchWithTimeout w = (case w of FetchFirst r \<Rightarrow> r | TimerFirst \<Rightarrow> Rejected ''Timeout'')"

text \<open>The asynchronous callback of \<^verbatim>\<open>urls.map\<close>, with its \<^verbatim>\<open>try\<close> and \<^verbatim>\<open>catch\<close>.\<close>

definition check_url :: "probe_env \<Rightarrow> string \<Rightarrow> api_health_result settled" where
  "check_url env u =
     (let start = start_time env in
      case fetchWithTimeout (winner env) of
        Fulfilled resp \<Rightarrow>
          (let elapsed = settle_time env - start in
           Fulfilled \<lparr>url = u, status = Some (resp_status resp), responseTime = elapsed,
                      healthy = resp_ok resp, error = None\<rparr>)
      | Rejected message \<Rightarrow>
          (let elapsed = settle_time env - start in
           Fulfilled \<lparr>url = u, status = None, responseTime = elapsed,
                      healthy = False, error = Some message\<rparr>))"

text \<open>
  \<^verbatim>\<open>Promise.all\<close> is fulfilled with the values in the order of the promises, and
  rejected as soon as one of them is.
\<close>

fun promise_all :: "'a settled list \<Rightarrow> 'a list settled" where
  "promise_all [] = Fulfilled []"
| "promise_all (p # ps) =
     (case p of
        Rejected e \<Rightarrow> Rejected e
      | Fulfilled v \<Rightarrow>
          (case promise_all ps of
             Rejected e \<Rightarrow> Rejected e
           | Fulfilled vs \<Rightarrow> Fulfilled (v # vs)))"

definition checkAPIHealth :: "(nat \<Rightarrow> probe_env) \<Rightarrow> string list \<Rightarrow> api_health_result list settled" where
  "checkAPIHealth env urls =
     promise_all (map (\<lambda>(i, u). check_url (env i) u) (enumerate 0 urls))"

section \<open>The specification's wording\<close>



text \<open>The invariant of an incident: a resolution time, once set, is not before the detection.\<close>

definition resolved_after_detection :: "incident \<Rightarrow> bool" where
  "resolved_after_detection inc =
     (case resolutionTime inc of None \<Rightarrow> True | Some r \<Rightarrow> detectionTime inc \<le> r)"

text \<open>
  The report as the specification words it: a heading, one section for each incident in
  the order of the store, and the line of the mean time to recovery. The rendering of the
  root cause is a parameter: \<open>rca_when_absent\<close> writes the text, and \<open>Pending\<close> when
  there is none; \<open>rca_when_falsy\<close> writes \<open>Pending\<close> for the empty text as well.
\<close>

definition rca_when_absent :: "incident \<Rightarrow> string" where
  "rca_when_absent inc = (case rca inc of None \<Rightarrow> ''Pending'' | Some r \<Rightarrow> r)"

definition rca_when_falsy :: "incident \<Rightarrow> string" where
  "rca_when_falsy inc =
     (case rca inc of None \<Rightarrow> ''Pending'' | Some r \<Rightarrow> if r = [] then ''Pending'' else r)"

definition report_section :: "(incident \<Rightarrow> string) \<Rightarrow> incident \<Rightarrow> string" where
  "report_section rca_shown inc =
     ''## Incident #'' @ show_int (id_field inc) @ '': '' @ title inc @ [CHR 0x0A] @
     ''- **Severity:** '' @ severity inc @ [CHR 0x0A] @
     ''- **Affected Services:** '' @ join_with '', '' (affectedServices inc) @ [CHR 0x0A] @
     ''- **Detection Time:** '' @ toISOString (detectionTime inc) @ [CHR 0x0A] @
     ''- **Resolution Time:** '' @
        (case resolutionTime inc of None \<Rightarrow> ''Unresolved'' | Some r \<Rightarrow> toISOString r) @ [CHR 0x0A] @
     ''- **RCA:** '' @ rca_shown inc @ [CHR 0x0A, CHR 0x0A]"

definition report_text :: "(incident \<Rightarrow> string) \<Rightarrow> tracker \<Rightarrow> string \<Rightarrow> string" where
  "report_text rca_shown incidents mttr =
     ''# Incident Report'' @ [CHR 0x0A, CHR 0x0A] @
     concat (map (report_section rca_shown) incidents) @
     ''**MTTR:** '' @ mttr @ '' hours'' @ [CHR 0x0A]"

text \<open>
  A number with exactly two decimal digits: an optional sign, one digit or more, a point
  and two digits.
\<close>

definition is_digit :: "char \<Rightarrow> bool" where
  "is_digit c = (48 \<le> (of_char c :: nat) \<and> (of_char c :: nat) \<le> 57)"

definition two_decimals :: "string \<Rightarrow> bool" where
  "two_decimals s =
     (let body = (case s of [] \<Rightarrow> [] | c # cs \<Rightarrow> if c = CHR ''-'' then cs else c # cs);
          k = length body
      in 4 \<le> k \<and> list_all is_digit (take (k - 3) body) \<and> body ! (k - 3) = CHR ''.'' \<and>
         is_digit (body ! (k - 2)) \<and> is_digit (body ! (k - 1)))"

text \<open>
  The values the fields of an incident can hold: a time value of a \<^verbatim>\<open>Date\<close> is at most
  \<open>8.64 \<times> 10\<^sup>1\<^sup>5\<close> milliseconds either side of the epoch, and an identifier is
  below \<open>10\<^sup>2\<^sup>1\<close>, where JavaScript writes an integer in plain decimal digits.
\<close>

definition valid_time :: "int \<Rightarrow> bool" where
  "valid_time t = (\<bar>t\<bar> \<le> 8640000000000000)"

definition valid_incident :: "incident \<Rightarrow> bool" where
  "valid_incident inc =
     (\<bar>id_field inc\<bar> < 10 ^ 21 \<and> valid_time (detectionTime inc) \<and>
      (case resolutionTime inc of None \<Rightarrow> True | Some r \<Rightarrow> valid_time r))"

text \<open>A store is a JavaScript array: it has fewer than \<open>2\<^sup>3\<^sup>2\<close> elements.\<close>

definition valid_store :: "tracker \<Rightarrow> bool" where
  "valid_store incidents = (length incidents < 2 ^ 32 \<and> list_all valid_incident incidents)"

text \<open>
  The lines the specification counts: a hit is a line containing \<open>HIT\<close>, a miss is a line
  containing \<open>MISS\<close> and not \<open>HIT\<close>.
\<close>

definition hit_lines :: "string list \<Rightarrow> string list" where
  "hit_lines logs = filter (\<lambda>line. str_includes line ''HIT'') logs"

definition miss_lines :: "string list \<Rightarrow> string list" where
  "miss_lines logs =
     filter (\<lambda>line. \<not> str_includes line ''HIT'' \<and> str_includes line ''MISS'') logs"

text \<open>
  The result of one probe as the specification words it, by what happens first: the
  request is answered, the request fails, or the timer fires.
\<close>

definition probe_result :: "probe_env \<Rightarrow> string \<Rightarrow> api_health_result" where
  "probe_result env u =
     (case winner env of
        FetchFirst (Fulfilled resp) \<Rightarrow>
          \<lparr>url = u, status = Some (resp_status resp),
           responseTime = settle_time env - start_time env,
           healthy = (200 \<le> resp_status resp \<and> resp_status resp \<le> 299), error = None\<rparr>
      | FetchFirst (Rejected message) \<Rightarrow>
          \<lparr>url = u, status = None, responseTime = settle_time env - start_time env,
           healthy = False, error = Some message\<rparr>
      | TimerFirst \<Rightarrow>
          \<lparr>url = u, status = None, responseTime = settle_time env - start_time env,
           healthy = False, error = Some ''Timeout''\<rparr>)"

text \<open>The identifiers of a store are 1, 2, 3, ... in the order of the store.\<close>

definition sequential_ids :: "tracker \<Rightarrow> bool" where
  "sequential_ids s = (map id_field s = map int [1..<Suc (length s)])"

section \<open>Examples\<close>

definition example_incident ::
  "int \<Rightarrow> int \<Rightarrow> int option \<Rightarrow> string option \<Rightarrow> incident" where
  "example_incident n detected resolved cause =
     \<lparr>id_field = n, title = ''Checkout outage'', severity = ''high'',
      affectedServices = [''api'', ''db''], detectionTime = detected,
      resolutionTime = resolved, rca = cause\<rparr>"

section \<open>Log scanner: verified properties\<close>

lemmas word_defs = is_word_char_def is_word_def word_boundary_def next_char_def

text \<open>
  C1, as stated: on the three lines \<open>a 503 b\<close>, \<open>ok\<close> and \<open>c503d\<close> the scanner would
  return the first and the third. It does not: in \<open>c503d\<close> the digits stand between two
  letters, so there is no word boundary on either side of them, and the line has no
  \<open>503\<close> between spaces either.
\<close>

theorem parseOriginErrors_example_refuted:
  "parseOriginErrors ''a 503 b\<newline>ok\<newline>c503d\<newline>'' \<noteq> [''a 503 b'', ''c503d'']"
  by (simp add: parseOriginErrors_def word_defs)

text \<open>
  C1, amended: on that input \<open>parseOriginErrors\<close> returns exactly the one line
  \<open>a 503 b\<close>; the line \<open>ok\<close> is excluded, and so is \<open>c503d\<close>, which satisfies neither
  of the two conditions of the filter.
\<close>

theorem parseOriginErrors_example:
  "parseOriginErrors ''a 503 b\<newline>ok\<newline>c503d\<newline>'' = [''a 503 b''] \<and>
   \<not> str_includes ''c503d'' '' 503 '' \<and> \<not> match_b503b None ''c503d''"
  by (simp add: parseOriginErrors_def word_defs)

lemma foldl_count_line:
  "foldl count_line (h, m) logs =
     (h + length (hit_lines logs), m + length (miss_lines logs))"
  by (induction logs arbitrary: h m) (simp_all add: count_line_def hit_lines_def miss_lines_def)

text \<open>
  C8: for every list of lines, \<open>hitCount\<close> is the number of lines containing \<open>HIT\<close>,
  \<open>missCount\<close> the number of lines containing \<open>MISS\<close> and not \<open>HIT\<close>, and \<open>hitRate\<close>
  is \<open>hitCount / (hitCount + missCount)\<close>, or 0 when both counts are 0; on
  \<open>HIT, MISS, HIT, other\<close> the result is 2 hits, 1 miss and the rate 2/3.
\<close>

theorem analyzeCachePerformance_counts:
  "hitCount (analyzeCachePerformance logs) = length (hit_lines logs) \<and>
   missCount (analyzeCachePerformance logs) = length (miss_lines logs) \<and>
   hitRate (analyzeCachePerformance logs) =
     Finite (if length (hit_lines logs) + length (miss_lines logs) = 0 then 0
             else real (length (hit_lines logs)) /
                  real (length (hit_lines logs) + length (miss_lines logs))) \<and>
   analyzeCachePerformance [''HIT'', ''MISS'', ''HIT'', ''other''] =
     \<lparr>hitRate = Finite (2 / 3), hitCount = 2, missCount = 1\<rparr>"
proof -
  have counts: "foldl count_line (0, 0) ls = (length (hit_lines ls), length (miss_lines ls))" for ls
    using foldl_count_line [of 0 0 ls] by simp
  have general: "analyzeCachePerformance ls =
      \<lparr>hitRate = Finite (if length (hit_lines ls) + length (miss_lines ls) = 0 then 0
             else real (length (hit_lines ls)) /
                  real (length (hit_lines ls) + length (miss_lines ls))),
       hitCount = length (hit_lines ls), missCount = length (miss_lines ls)\<rparr>" for ls
    by (simp add: analyzeCachePerformance_def counts js_div_def Let_def del: of_nat_add)
  have example: "analyzeCachePerformance [''HIT'', ''MISS'', ''HIT'', ''other''] =
     \<lparr>hitRate = Finite (2 / 3), hitCount = 2, missCount = 1\<rparr>"
  proof -
    have h: "hit_lines [''HIT'', ''MISS'', ''HIT'', ''other''] = [''HIT'', ''HIT'']"
      by (simp add: hit_lines_def)
    have m: "miss_lines [''HIT'', ''MISS'', ''HIT'', ''other''] = [''MISS'']"
      by (simp add: miss_lines_def)
    show ?thesis unfolding general h m by simp
  qed
  have fields: "hitCount (analyzeCachePerformance logs) = length (hit_lines logs)"
    "missCount (analyzeCachePerformance logs) = length (miss_lines logs)"
    "hitRate (analyzeCachePerformance logs) =
       Finite (if length (hit_lines logs) + length (miss_lines logs) = 0 then 0
               else real (length (hit_lines logs)) /
                    real (length (hit_lines logs) + length (miss_lines logs)))"
    by (simp_all only: general cache_stats.simps)
  from fields example show ?thesis
    by (intro conjI)
qed

text \<open>A line with both words counts once, as a hit; a line with neither counts as nothing.\<close>

theorem analyzeCachePerformance_counts_witness:
  "analyzeCachePerformance [''MISS then HIT'', ''neither'', ''MISS''] =
     \<lparr>hitRate = Finite (1 / 2), hitCount = 1, missCount = 1\<rparr>"
proof -
  let ?logs = "[''MISS then HIT'', ''neither'', ''MISS'']"
  have h: "hit_lines ?logs = [''MISS then HIT'']" by (simp add: hit_lines_def)
  have m: "miss_lines ?logs = [''MISS'']" by (simp add: miss_lines_def)
  show ?thesis
    using analyzeCachePerformance_counts [of ?logs] unfolding h m
    by (simp add: cache_stats.equality)
qed

section \<open>Health checker: verified properties\<close>

lemma promise_all_fulfilled: "promise_all (map Fulfilled xs) = Fulfilled xs"
  by (induction xs) simp_all

lemma check_url_fulfilled: "check_url env u = Fulfilled (probe_result env u)"
  by (simp add: check_url_def probe_result_def fetchWithTimeout_def resp_ok_def
      split: race_winner.splits settled.splits)

lemma checkAPIHealth_map:
  "checkAPIHealth env urls =
     Fulfilled (map (\<lambda>(i, u). probe_result (env i) u) (enumerate 0 urls))"
proof -
  have "map (\<lambda>(i, u). check_url (env i) u) (enumerate 0 urls) =
        map Fulfilled (map (\<lambda>(i, u). probe_result (env i) u) (enumerate 0 urls))"
    by (simp add: check_url_fulfilled case_prod_unfold)
  then show ?thesis
    by (simp only: checkAPIHealth_def promise_all_fulfilled)
qed

text \<open>
  C7: for every list of URLs, the empty one included, and whatever the network and the
  timers do, \<open>checkAPIHealth\<close> is fulfilled (it is never rejected), with one result for
  each URL in the order of the input; the result of a probe is the one \<open>probe_result\<close>
  describes: the status, the elapsed time, \<open>healthy\<close> for a status in 200..299 and no
  error when the request is answered first; no status, \<open>healthy = false\<close>, the elapsed
  time and the error's message when the request fails, the message being \<open>Timeout\<close> when
  the timer fires first.
\<close>

theorem checkAPIHealth_results:
  "\<exists>results. checkAPIHealth env urls = Fulfilled results \<and>
     length results = length urls \<and> map url results = urls \<and>
     (\<forall>i < length urls. results ! i = probe_result (env i) (urls ! i))"
proof -
  let ?rs = "map (\<lambda>(i, u). probe_result (env i) u) (enumerate 0 urls)"
  have u: "url (probe_result e u) = u" for e u
    by (simp add: probe_result_def split: race_winner.splits settled.splits)
  have "url \<circ> (\<lambda>p. probe_result (env (fst p)) (snd p)) = snd"
    by (simp add: fun_eq_iff u)
  then have urls: "map url ?rs = urls"
    by (simp add: case_prod_unfold)
  have nth: "\<forall>i < length urls. ?rs ! i = probe_result (env i) (urls ! i)"
    by (simp add: nth_enumerate_eq)
  show ?thesis
    using checkAPIHealth_map [of env urls] urls nth by (intro exI [of _ ?rs]) simp
qed

text \<open>Three probes: one answered with 200, one that times out, one whose request fails.\<close>

theorem checkAPIHealth_results_witness:
  "checkAPIHealth
     (\<lambda>i. if i = 0 then \<lparr>start_time = 0, settle_time = 10, winner = FetchFirst (Fulfilled (Response 200))\<rparr>
          else if i = 1 then \<lparr>start_time = 1, settle_time = 101, winner = TimerFirst\<rparr>
          else \<lparr>start_time = 2, settle_time = 7, winner = FetchFirst (Rejected ''fetch failed'')\<rparr>)
     [''http://fast'', ''http://slow'', ''http://down''] =
   Fulfilled
     [\<lparr>url = ''http://fast'', status = Some 200, responseTime = 10, healthy = True, error = None\<rparr>,
      \<lparr>url = ''http://slow'', status = None, responseTime = 100, healthy = False, error = Some ''Timeout''\<rparr>,
      \<lparr>url = ''http://down'', status = None, responseTime = 5, healthy = False, error = Some ''fetch failed''\<rparr>]"
  (is "checkAPIHealth ?env ?urls = Fulfilled ?expected")
proof -
  obtain results where r: "checkAPIHealth ?env ?urls = Fulfilled results"
    and len: "length results = length ?urls"
    and nth: "\<forall>i < length ?urls. results ! i = probe_result (?env i) (?urls ! i)"
    using checkAPIHealth_results [of ?env ?urls] by blast
  have "length results = Suc (Suc (Suc 0))" using len by simp
  then obtain a b c where abc: "results = [a, b, c]"
    by (auto simp: length_Suc_conv)
  have "results ! 0 = ?expected ! 0" "results ! 1 = ?expected ! 1" "results ! 2 = ?expected ! 2"
    using nth by (simp_all add: probe_result_def)
  then have "results = ?expected"
    unfolding abc by simp
  with r show ?thesis by simp
qed

section \<open>Incident store: verified properties\<close>

lemma find_first_None: "find_first P xs = None \<longleftrightarrow> (\<forall>x \<in> set xs. \<not> P x)"
  by (induction xs) simp_all

lemma find_first_append:
  "(\<forall>y \<in> set pre. \<not> P y) \<Longrightarrow> P x \<Longrightarrow> find_first P (pre @ x # post) = Some (length pre)"
  by (induction pre) simp_all

lemma find_first_split:
  "find_first P xs = Some i \<Longrightarrow>
     \<exists>pre x post. xs = pre @ x # post \<and> length pre = i \<and> (\<forall>y \<in> set pre. \<not> P y) \<and> P x"
proof (induction xs arbitrary: i)
  case Nil
  then show ?case by simp
next
  case (Cons a xs)
  show ?case
  proof (cases "P a")
    case True
    with Cons.prems have "i = 0" by simp
    with True show ?thesis by (intro exI [of _ "[]"] exI [of _ a] exI [of _ xs]) simp
  next
    case False
    with Cons.prems obtain j where j: "find_first P xs = Some j" "i = Suc j"
      by auto
    from Cons.IH [OF j(1)] obtain pre x post where
      "xs = pre @ x # post" "length pre = j" "\<forall>y \<in> set pre. \<not> P y" "P x"
      by blast
    with False j(2) show ?thesis
      by (intro exI [of _ "a # pre"] exI [of _ x] exI [of _ post]) simp
  qed
qed

lemma resolveIncident_not_found:
  "\<forall>inc \<in> set incidents. \<not> strict_eq (JNum (id_field inc)) ident \<Longrightarrow>
     resolveIncident now ident r incidents = (None, incidents)"
  using find_first_None [of "\<lambda>inc. strict_eq (JNum (id_field inc)) ident" incidents]
  by (simp add: resolveIncident_def)

lemma resolveIncident_found:
  assumes "\<forall>x \<in> set pre. \<not> strict_eq (JNum (id_field x)) ident"
    and "strict_eq (JNum (id_field inc)) ident"
  shows "resolveIncident now ident r (pre @ inc # post) =
     (if resolutionTime inc = None
      then (Some (inc\<lparr>resolutionTime := Some now, rca := Some r\<rparr>),
            pre @ inc\<lparr>resolutionTime := Some now, rca := Some r\<rparr> # post)
      else (Some inc, pre @ inc # post))"
  using find_first_append [of pre "\<lambda>inc. strict_eq (JNum (id_field inc)) ident" inc post] assms
  by (simp add: resolveIncident_def Let_def)

lemma resolveIncident_twice:
  "resolveIncident now' ident r' (snd (resolveIncident now ident r incidents)) =
     resolveIncident now ident r incidents"
proof (cases "find_first (\<lambda>inc. strict_eq (JNum (id_field inc)) ident) incidents")
  case None
  then show ?thesis by (simp add: resolveIncident_def)
next
  case (Some i)
  from find_first_split [OF Some] obtain pre x post where
    xs: "incidents = pre @ x # post" and pre: "\<forall>y \<in> set pre. \<not> strict_eq (JNum (id_field y)) ident"
    and x: "strict_eq (JNum (id_field x)) ident"
    by blast
  show ?thesis
  proof (cases "resolutionTime x")
    case None
    let ?x' = "x\<lparr>resolutionTime := Some now, rca := Some r\<rparr>"
    have x': "strict_eq (JNum (id_field ?x')) ident" using x by simp
    have first: "resolveIncident now ident r incidents = (Some ?x', pre @ ?x' # post)"
      unfolding xs using resolveIncident_found [OF pre x] None by simp
    have "resolveIncident now' ident r' (pre @ ?x' # post) = (Some ?x', pre @ ?x' # post)"
      using resolveIncident_found [OF pre x'] by simp
    with first show ?thesis by simp
  next
    case (Some t)
    have "resolveIncident n ident q incidents = (Some x, incidents)" for n q
      unfolding xs using resolveIncident_found [OF pre x] Some by simp
    then show ?thesis by simp
  qed
qed

text \<open>
  C2: for every store and every call of \<open>resolveIncident\<close>: when no incident has the
  identifier, the call returns nothing and the store is unchanged; when the first incident
  with the identifier is unresolved, the call sets its resolution time to the current time
  and its root cause to the given text, and returns that record; when it is resolved
  already, the call returns the record and the store is unchanged, the new text being
  discarded. Hence a second call with the same identifier returns what the first returned
  and changes nothing, whatever its time and its text.
\<close>

theorem resolveIncident_cases:
  "((\<forall>inc \<in> set incidents. \<not> strict_eq (JNum (id_field inc)) ident) \<longrightarrow>
      resolveIncident now ident r incidents = (None, incidents)) \<and>
   ((\<forall>x \<in> set pre. \<not> strict_eq (JNum (id_field x)) ident) \<and>
    strict_eq (JNum (id_field inc)) ident \<and> resolutionTime inc = None \<longrightarrow>
      resolveIncident now ident r (pre @ inc # post) =
        (Some (inc\<lparr>resolutionTime := Some now, rca := Some r\<rparr>),
         pre @ inc\<lparr>resolutionTime := Some now, rca := Some r\<rparr> # post)) \<and>
   ((\<forall>x \<in> set pre. \<not> strict_eq (JNum (id_field x)) ident) \<and>
    strict_eq (JNum (id_field inc)) ident \<and> resolutionTime inc \<noteq> None \<longrightarrow>
      resolveIncident now ident r (pre @ inc # post) = (Some inc, pre @ inc # post)) \<and>
   resolveIncident now' ident r' (snd (resolveIncident now ident r incidents)) =
     resolveIncident now ident r incidents"
  using resolveIncident_not_found [of incidents ident now r]
    resolveIncident_found [of pre ident inc now r post]
    resolveIncident_twice [of now' ident r' now r incidents]
  by simp

text \<open>
  A store of three incidents, the second resolved: an unknown identifier, the identifier of
  an unresolved incident, and the identifier of the resolved one; then a second resolution
  of the incident just resolved.
\<close>

theorem resolveIncident_cases_witness:
  "resolveIncident 900 (JNum 7) ''net''
     [example_incident 1 100 None None, example_incident 2 200 (Some 500) (Some ''disk''),
      example_incident 3 300 None None] =
   (None, [example_incident 1 100 None None, example_incident 2 200 (Some 500) (Some ''disk''),
      example_incident 3 300 None None]) \<and>
   resolveIncident 900 (JNum 3) ''net''
     [example_incident 1 100 None None, example_incident 2 200 (Some 500) (Some ''disk''),
      example_incident 3 300 None None] =
   (Some (example_incident 3 300 (Some 900) (Some ''net'')),
    [example_incident 1 100 None None, example_incident 2 200 (Some 500) (Some ''disk''),
     example_incident 3 300 (Some 900) (Some ''net'')]) \<and>
   resolveIncident 900 (JNum 2) ''net''
     [example_incident 1 100 None None, example_incident 2 200 (Some 500) (Some ''disk''),
      example_incident 3 300 None None] =
   (Some (example_incident 2 200 (Some 500) (Some ''disk'')),
    [example_incident 1 100 None None, example_incident 2 200 (Some 500) (Some ''disk''),
     example_incident 3 300 None None]) \<and>
   resolveIncident 950 (JNum 3) ''again''
     (snd (resolveIncident 900 (JNum 3) ''net''
       [example_incident 1 100 None None, example_incident 2 200 (Some 500) (Some ''disk''),
        example_incident 3 300 None None])) =
   (Some (example_incident 3 300 (Some 900) (Some ''net'')),
    [example_incident 1 100 None None, example_incident 2 200 (Some 500) (Some ''disk''),
     example_incident 3 300 (Some 900) (Some ''net'')])"
proof -
  let ?a = "example_incident 1 100 None None"
  let ?b = "example_incident 2 200 (Some 500) (Some ''disk'')"
  let ?c = "example_incident 3 300 None None"
  have ids: "id_field ?a = 1" "id_field ?b = 2" "id_field ?c = 3"
    and times: "resolutionTime ?b = Some 500" "resolutionTime ?c = None"
    and c': "?c\<lparr>resolutionTime := Some 900, rca := Some ''net''\<rparr> =
             example_incident 3 300 (Some 900) (Some ''net'')"
    by (simp_all add: example_incident_def)
  have unknown: "resolveIncident 900 (JNum 7) ''net'' [?a, ?b, ?c] = (None, [?a, ?b, ?c])"
    using resolveIncident_cases [where incidents = "[?a, ?b, ?c]" and ident = "JNum 7"
        and now = 900 and r = "''net''"]
    by (simp add: ids)
  have unresolved: "resolveIncident 900 (JNum 3) ''net'' ([?a, ?b] @ ?c # []) =
      (Some (example_incident 3 300 (Some 900) (Some ''net'')),
       [?a, ?b] @ example_incident 3 300 (Some 900) (Some ''net'') # [])"
    using resolveIncident_cases [where pre = "[?a, ?b]" and inc = ?c and post = "[]"
        and ident = "JNum 3" and now = 900 and r = "''net''"]
    by (simp add: ids times c')
  have resolved: "resolveIncident 900 (JNum 2) ''net'' ([?a] @ ?b # [?c]) =
      (Some ?b, [?a] @ ?b # [?c])"
    using resolveIncident_cases [where pre = "[?a]" and inc = ?b and post = "[?c]"
        and ident = "JNum 2" and now = 900 and r = "''net''"]
    by (simp add: ids times)
  have again: "resolveIncident 950 (JNum 3) ''again''
      (snd (resolveIncident 900 (JNum 3) ''net'' [?a, ?b, ?c])) =
      resolveIncident 900 (JNum 3) ''net'' [?a, ?b, ?c]"
    using resolveIncident_cases [where incidents = "[?a, ?b, ?c]" and ident = "JNum 3"
        and now = 900 and r = "''net''" and now' = 950 and r' = "''again''"]
    by blast
  from unknown unresolved resolved again show ?thesis by simp
qed

text \<open>
  C9: the identifier is compared with \<^verbatim>\<open>===\<close>, and every identifier of the store is a
  number; so a call of \<open>resolveIncident\<close> with a string, such as \<open>"3"\<close> when incident 3
  exists, finds nothing: it returns nothing and leaves every incident unchanged.
\<close>

theorem resolveIncident_string_id:
  "resolveIncident now (JStr s) r incidents = (None, incidents)"
  by (rule resolveIncident_not_found) simp

text \<open>Incident 3 exists and is unresolved; the string \<open>"3"\<close> does not resolve it.\<close>

theorem resolveIncident_string_id_witness:
  "resolveIncident 900 (JStr ''3'') ''net''
     [example_incident 1 100 None None, example_incident 2 200 None None,
      example_incident 3 300 None None] =
   (None, [example_incident 1 100 None None, example_incident 2 200 None None,
      example_incident 3 300 None None])"
  using resolveIncident_string_id [of 900 "''3''" "''net''"
      "[example_incident 1 100 None None, example_incident 2 200 None None,
        example_incident 3 300 None None]"]
  by simp

lemma createIncident_eq:
  "createIncident now ttl sev services s =
     (\<lparr>id_field = int (length s) + 1, title = ttl, severity = sev,
        affectedServices = services, detectionTime = now, resolutionTime = None, rca = None\<rparr>,
      s @ [\<lparr>id_field = int (length s) + 1, title = ttl, severity = sev,
        affectedServices = services, detectionTime = now, resolutionTime = None, rca = None\<rparr>])"
  by (simp add: createIncident_def Let_def)

lemma length_resolveIncident: "length (snd (resolveIncident now ident r s)) = length s"
  by (simp add: resolveIncident_def Let_def split: option.splits)

lemma ids_resolveIncident: "map id_field (snd (resolveIncident now ident r s)) = map id_field s"
proof (cases "find_first (\<lambda>inc. strict_eq (JNum (id_field inc)) ident) s")
  case None
  then show ?thesis by (simp add: resolveIncident_def)
next
  case (Some i)
  from find_first_split [OF Some] obtain pre x post where
    "s = pre @ x # post" "\<forall>y \<in> set pre. \<not> strict_eq (JNum (id_field y)) ident"
    "strict_eq (JNum (id_field x)) ident"
    by blast
  then show ?thesis
    using resolveIncident_found [of pre ident x now r post] by simp
qed

lemma length_apply_call:
  "length (apply_call c s) = length s + (if is_create (snd c) then 1 else 0)"
proof (cases c)
  case (Pair now op)
  then show ?thesis
    by (cases op) (simp_all add: createIncident_eq length_resolveIncident)
qed

lemma length_run_calls:
  "length (run_calls calls s) = length s + length (filter (\<lambda>c. is_create (snd c)) calls)"
  by (induction calls arbitrary: s) (simp_all add: length_apply_call)

lemma sequential_ids_apply_call: "sequential_ids s \<Longrightarrow> sequential_ids (apply_call c s)"
proof (cases c)
  case (Pair now op)
  assume "sequential_ids s"
  with Pair show ?thesis
    by (cases op)
      (simp_all add: sequential_ids_def createIncident_eq ids_resolveIncident
        length_resolveIncident)
qed

lemma sequential_ids_run_calls: "sequential_ids s \<Longrightarrow> sequential_ids (run_calls calls s)"
  by (induction calls arbitrary: s) (simp_all add: sequential_ids_apply_call)

lemma increasing_map_int: "sorted_wrt (<) (map int [m..<n])"
  by (simp add: sorted_wrt_map sorted_wrt_iff_nth_less)

text \<open>
  C5: after any sequence of \<open>createIncident\<close> calls on a fresh store, the next call, the
  \<open>n\<close>th, returns a record with the identifier \<open>n\<close>, the current time as detection
  time, no resolution time and no root cause, and appends it to the store; the
  identifiers of the store are then \<open>1, ..., n\<close> in the order of insertion, so they are
  distinct and increasing.
\<close>

theorem createIncident_sequence:
  assumes "list_all (\<lambda>c. is_create (snd c)) calls"
  shows "createIncident now ttl sev services (run_calls calls []) =
     (\<lparr>id_field = int (length calls) + 1, title = ttl, severity = sev,
        affectedServices = services, detectionTime = now, resolutionTime = None, rca = None\<rparr>,
      run_calls calls [] @
      [\<lparr>id_field = int (length calls) + 1, title = ttl, severity = sev,
        affectedServices = services, detectionTime = now, resolutionTime = None, rca = None\<rparr>]) \<and>
   map id_field (snd (createIncident now ttl sev services (run_calls calls []))) =
     map int [1..<length calls + 2] \<and>
   distinct (map id_field (snd (createIncident now ttl sev services (run_calls calls [])))) \<and>
   sorted_wrt (<) (map id_field (snd (createIncident now ttl sev services (run_calls calls []))))"
proof -
  let ?s = "run_calls calls []"
  have "filter (\<lambda>c. is_create (snd c)) calls = calls"
    using assms by (simp add: list_all_iff)
  then have len: "length ?s = length calls"
    using length_run_calls [of calls "[]"] by simp
  have first: "createIncident now ttl sev services ?s =
     (\<lparr>id_field = int (length calls) + 1, title = ttl, severity = sev,
        affectedServices = services, detectionTime = now, resolutionTime = None, rca = None\<rparr>,
      ?s @
      [\<lparr>id_field = int (length calls) + 1, title = ttl, severity = sev,
        affectedServices = services, detectionTime = now, resolutionTime = None, rca = None\<rparr>])"
    by (simp add: createIncident_eq len)
  have "sequential_ids ?s"
    by (rule sequential_ids_run_calls) (simp add: sequential_ids_def)
  then have "sequential_ids (apply_call (now, Create ttl sev services) ?s)"
    by (rule sequential_ids_apply_call)
  then have ids: "map id_field (snd (createIncident now ttl sev services ?s)) =
      map int [1..<length calls + 2]"
    by (simp add: sequential_ids_def createIncident_eq len)
  have increasing: "sorted_wrt (<) (map id_field (snd (createIncident now ttl sev services ?s)))"
    unfolding ids by (rule increasing_map_int)
  then have "distinct (map id_field (snd (createIncident now ttl sev services ?s)))"
    by (simp only: strict_sorted_iff)
  with increasing show ?thesis using first ids by (intro conjI)
qed

text \<open>The third call on a fresh store.\<close>

theorem createIncident_sequence_witness:
  "createIncident 300 ''Cache miss storm'' ''medium'' [''cdn'']
     (run_calls [(100, Create ''Checkout outage'' ''high'' [''api'', ''db'']),
                 (200, Create ''Slow search'' ''low'' [])] []) =
   (\<lparr>id_field = 3, title = ''Cache miss storm'', severity = ''medium'',
      affectedServices = [''cdn''], detectionTime = 300, resolutionTime = None, rca = None\<rparr>,
    [\<lparr>id_field = 1, title = ''Checkout outage'', severity = ''high'',
      affectedServices = [''api'', ''db''], detectionTime = 100, resolutionTime = None, rca = None\<rparr>,
     \<lparr>id_field = 2, title = ''Slow search'', severity = ''low'',
      affectedServices = [], detectionTime = 200, resolutionTime = None, rca = None\<rparr>,
     \<lparr>id_field = 3, title = ''Cache miss storm'', severity = ''medium'',
      affectedServices = [''cdn''], detectionTime = 300, resolutionTime = None, rca = None\<rparr>])"
proof -
  let ?calls = "[(100, Create ''Checkout outage'' ''high'' [''api'', ''db'']),
                 (200, Create ''Slow search'' ''low'' [])]"
  have calls: "list_all (\<lambda>c. is_create (snd c)) ?calls" by simp
  have store: "run_calls ?calls [] =
    [\<lparr>id_field = 1, title = ''Checkout outage'', severity = ''high'',
      affectedServices = [''api'', ''db''], detectionTime = 100, resolutionTime = None, rca = None\<rparr>,
     \<lparr>id_field = 2, title = ''Slow search'', severity = ''low'',
      affectedServices = [], detectionTime = 200, resolutionTime = None, rca = None\<rparr>]"
    by (simp add: createIncident_eq)
  show ?thesis
    using createIncident_sequence [OF calls, of 300 "''Cache miss storm''" "''medium''" "[''cdn'']"]
    unfolding store by simp
qed

subsection \<open>Resolution happens once\<close>

text \<open>
  C3, as stated: after any sequence of calls, a resolution time that is set is not before
  the detection time. Both times are readings of the wall clock, which the code takes as
  they come: when the clock is set back between the creation of an incident (reading 100)
  and its resolution (reading 50), the incident is resolved before it was detected.
\<close>

theorem resolution_before_detection:
  "\<not> list_all resolved_after_detection
       (run_calls [(100, Create ''Checkout outage'' ''high'' [''api'']),
                   (50, Resolve (JNum 1) ''disk full'')] [])"
  by (simp add: createIncident_eq resolveIncident_def Let_def resolved_after_detection_def)

lemma resolved_after_detection_apply_call:
  assumes inv: "\<forall>inc \<in> set s. resolved_after_detection inc \<and> detectionTime inc \<le> fst c"
  shows "\<forall>inc \<in> set (apply_call c s). resolved_after_detection inc \<and> detectionTime inc \<le> fst c"
proof (cases c)
  case (Pair now op)
  show ?thesis
  proof (cases op)
    case (Create ttl sev services)
    with Pair inv show ?thesis
      by (auto simp: createIncident_eq resolved_after_detection_def)
  next
    case (Resolve ident r)
    show ?thesis
    proof (cases "find_first (\<lambda>inc. strict_eq (JNum (id_field inc)) ident) s")
      case None
      with Pair Resolve inv show ?thesis by (simp add: resolveIncident_def)
    next
      case (Some i)
      from find_first_split [OF Some] obtain pre x post where
        s: "s = pre @ x # post" and pre: "\<forall>y \<in> set pre. \<not> strict_eq (JNum (id_field y)) ident"
        and x: "strict_eq (JNum (id_field x)) ident"
        by blast
      have "detectionTime x \<le> now" using inv s Pair by simp
      then have "resolved_after_detection (x\<lparr>resolutionTime := Some now, rca := Some r\<rparr>)"
        by (simp add: resolved_after_detection_def)
      with inv Pair Resolve show ?thesis
        unfolding s using resolveIncident_found [OF pre x, of now r post]
        by (auto split: if_splits)
    qed
  qed
qed

lemma resolved_after_detection_run_calls:
  "sorted (map fst calls) \<Longrightarrow>
   \<forall>inc \<in> set s. resolved_after_detection inc \<and> (\<forall>c \<in> set calls. detectionTime inc \<le> fst c) \<Longrightarrow>
   \<forall>inc \<in> set (run_calls calls s). resolved_after_detection inc"
proof (induction calls arbitrary: s)
  case Nil
  then show ?case by simp
next
  case (Cons c cs)
  have "\<forall>inc \<in> set s. resolved_after_detection inc \<and> detectionTime inc \<le> fst c"
    using Cons.prems(2) by simp
  then have step: "\<forall>inc \<in> set (apply_call c s).
      resolved_after_detection inc \<and> detectionTime inc \<le> fst c"
    by (rule resolved_after_detection_apply_call)
  have later: "\<forall>d \<in> set cs. fst c \<le> fst d"
    using Cons.prems(1) by simp
  have "\<forall>inc \<in> set (apply_call c s).
      resolved_after_detection inc \<and> (\<forall>d \<in> set cs. detectionTime inc \<le> fst d)"
    using step later by fastforce
  moreover have "sorted (map fst cs)" using Cons.prems(1) by simp
  ultimately show ?case
    using Cons.IH [of "apply_call c s"] by simp
qed

lemma resolved_kept_apply_call:
  assumes "i < length s" and "resolutionTime (s ! i) \<noteq> None"
  shows "i < length (apply_call c s) \<and> apply_call c s ! i = s ! i"
proof (cases c)
  case (Pair now op)
  show ?thesis
  proof (cases op)
    case (Create ttl sev services)
    with Pair assms(1) show ?thesis
      by (simp add: createIncident_eq nth_append)
  next
    case (Resolve ident r)
    show ?thesis
    proof (cases "find_first (\<lambda>inc. strict_eq (JNum (id_field inc)) ident) s")
      case None
      with Pair Resolve assms(1) show ?thesis by (simp add: resolveIncident_def)
    next
      case (Some j)
      have "s[j := x] ! i = s ! i" if "resolutionTime (s ! j) = None" for x
        using that assms(2) by (cases "i = j") simp_all
      with Pair Resolve Some assms(1) show ?thesis
        by (simp add: resolveIncident_def Let_def)
    qed
  qed
qed

lemma resolved_kept_run_calls:
  "i < length s \<Longrightarrow> resolutionTime (s ! i) \<noteq> None \<Longrightarrow>
   i < length (run_calls calls s) \<and> run_calls calls s ! i = s ! i"
proof (induction calls arbitrary: s)
  case Nil
  then show ?case by simp
next
  case (Cons c cs)
  from resolved_kept_apply_call [OF Cons.prems, of c]
  have step: "i < length (apply_call c s)" "apply_call c s ! i = s ! i"
    by simp_all
  with Cons.prems(2) have "resolutionTime (apply_call c s ! i) \<noteq> None" by simp
  from Cons.IH [OF step(1) this] step(2) show ?case by simp
qed

text \<open>
  C3, amended: after any sequence of \<open>createIncident\<close> and \<open>resolveIncident\<close> calls
  on a fresh store whose clock readings do not decrease from one call to the next, every
  resolution time that is set is at or after the detection time of its incident. And with
  any clock, from any store: once the resolution time of an incident is set, no further
  sequence of calls changes that incident, so the resolution time and the root cause are
  assigned at most once and never reset.
\<close>

theorem resolution_invariants:
  "(sorted (map fst calls) \<longrightarrow> list_all resolved_after_detection (run_calls calls [])) \<and>
   (i < length incidents \<and> resolutionTime (incidents ! i) \<noteq> None \<longrightarrow>
      i < length (run_calls more_calls incidents) \<and>
      run_calls more_calls incidents ! i = incidents ! i)"
  using resolved_after_detection_run_calls [of calls "[]"]
    resolved_kept_run_calls [of i incidents more_calls]
  by (simp add: list_all_iff)

text \<open>
  A run with increasing clock readings; and a resolved incident that a second resolution
  and a later creation leave as it is.
\<close>

theorem resolution_invariants_witness:
  "list_all resolved_after_detection
     (run_calls [(100, Create ''Checkout outage'' ''high'' [''api'']),
                 (150, Resolve (JNum 1) ''disk full'')] []) \<and>
   run_calls [(200, Resolve (JNum 1) ''again''), (300, Create ''Slow search'' ''low'' [])]
     [example_incident 1 100 (Some 150) (Some ''disk full'')] ! 0 =
   example_incident 1 100 (Some 150) (Some ''disk full'')"
  using resolution_invariants [of "[(100, Create ''Checkout outage'' ''high'' [''api'']),
                 (150, Resolve (JNum 1) ''disk full'')]" 0
      "[example_incident 1 100 (Some 150) (Some ''disk full'')]"
      "[(200, Resolve (JNum 1) ''again''), (300, Create ''Slow search'' ''low'' [])]"]
  by (simp add: example_incident_def)

subsection \<open>Mean time to recovery\<close>







subsection \<open>Rounding to the nearest double\<close>

lemma exponent_up_numeral:
  "exponent_up (numeral k) a = (if 2 \<le> a then Suc (exponent_up (pred_numeral k) (a / 2)) else 0)"
  by (simp add: numeral_eq_Suc)

lemma exponent_down_numeral:
  "exponent_down (numeral k) a = (if a < 1 then Suc (exponent_down (pred_numeral k) (2 * a)) else 0)"
  by (simp add: numeral_eq_Suc)

lemmas double_eval = to_double_def ulp_def round_half_even_def exponent_up_numeral
  exponent_down_numeral fl_div_def Let_def

text \<open>
  Known doubles: 1.005, 0.015, 0.1 and -2/3 are not representable, 3618000 is; above
  \<open>2 ^ 53\<close> only the even integers are, and a tie goes to the even significand.
\<close>

lemma to_double_examples:
  "to_double (201 / 200) = Finite (1131529406376837 / 1125899906842624)"
  "to_double (3 / 200) = Finite (1080863910568919 / 72057594037927936)"
  "to_double (1 / 10) = Finite (3602879701896397 / 36028797018963968)"
  "to_double (- (2 / 3)) = Finite (- (6004799503160661 / 9007199254740992))"
  "to_double 3618000 = Finite 3618000"
  "to_double 9007199254740993 = Finite 9007199254740992"
  "to_double 9007199254740995 = Finite 9007199254740996"
  "to_double (- 17279999999999999) = Finite (- 17280000000000000)"
  by (simp_all add: double_eval)

lemma round_half_even_le:
  assumes "r \<le> of_int K"
  shows "round_half_even r \<le> K"
proof -
  have f: "\<lfloor>r\<rfloor> \<le> K" using assms by (simp add: floor_le_iff)
  have "\<lfloor>r\<rfloor> + 1 \<le> K" if "r - of_int \<lfloor>r\<rfloor> \<ge> 1 / 2"
  proof -
    have "of_int \<lfloor>r\<rfloor> < r" using that by linarith
    with assms have "of_int \<lfloor>r\<rfloor> < (of_int K :: real)" by linarith
    then show ?thesis by simp
  qed
  with f show ?thesis
    by (auto simp: round_half_even_def Let_def)
qed

lemma round_half_even_nonneg: "0 \<le> r \<Longrightarrow> 0 \<le> round_half_even r"
  by (auto simp: round_half_even_def Let_def)

lemma exponent_up_le: "1 \<le> a \<Longrightarrow> 2 ^ exponent_up k a \<le> a"
proof (induction k arbitrary: a)
  case 0
  then show ?case by simp
next
  case (Suc k)
  show ?case
  proof (cases "2 \<le> a")
    case True
    then have "2 ^ exponent_up k (a / 2) \<le> a / 2"
      by (intro Suc.IH) simp
    with True show ?thesis by simp
  next
    case False
    with Suc.prems show ?thesis by simp
  qed
qed

lemma ulp_pos: "0 < ulp a"
  by (simp add: ulp_def)

text \<open>
  A bound \<open>N * 2 ^ j\<close> with \<open>N < 2 ^ 53\<close> is a multiple of the unit in the last place of
  every magnitude below it, so rounding does not pass it.
\<close>

lemma ulp_divides:
  assumes a: "0 < a" "a \<le> real N * 2 ^ j" and N: "N < 2 ^ 53"
  shows "\<exists>K. real N * 2 ^ j = real K * ulp a"
proof (cases "1 \<le> a")
  case True
  let ?E = "exponent_up 1024 a"
  have "(2::real) ^ ?E \<le> a" using True by (rule exponent_up_le)
  also have "a \<le> real N * 2 ^ j" by (rule a(2))
  also have "real N * 2 ^ j < 2 ^ 53 * 2 ^ j"
    using N by (simp add: of_nat_less_numeral_power_cancel_iff)
  finally have "(2::real) ^ ?E < 2 ^ (53 + j)" by (simp add: power_add)
  then have E: "?E < 53 + j" by (simp add: power_strict_increasing_iff)
  have "real N * 2 ^ j = real (N * 2 ^ (j + 52 - ?E)) * (2 ^ ?E / 2 ^ 52)"
  proof -
    have "(2::real) ^ (j + 52) = 2 ^ (j + 52 - ?E) * 2 ^ ?E"
      using E by (simp flip: power_add)
    then have "(2::real) ^ j * 2 ^ 52 = 2 ^ (j + 52 - ?E) * 2 ^ ?E"
      by (simp add: power_add)
    then have eq: "(2::real) ^ j = 2 ^ (j + 52 - ?E) * (2 ^ ?E / 2 ^ 52)"
      by (simp add: field_simps)
    have "real (N * 2 ^ (j + 52 - ?E)) = real N * 2 ^ (j + 52 - ?E)"
      by simp
    then show ?thesis
      by (simp only: mult.assoc flip: eq)
  qed
  then have "real N * 2 ^ j = real (N * 2 ^ (j + 52 - ?E)) * ulp a"
    using True by (simp only: ulp_def if_True)
  then show ?thesis by blast
next
  case False
  let ?D = "exponent_down 1022 a"
  have "real N * 2 ^ j = real (N * 2 ^ (j + ?D + 52)) * (1 / 2 ^ (?D + 52))"
    by (simp add: power_add)
  then have "real N * 2 ^ j = real (N * 2 ^ (j + ?D + 52)) * ulp a"
    using False by (simp only: ulp_def if_False)
  then show ?thesis by blast
qed

lemma to_double_bound:
  assumes x: "\<bar>x\<bar> \<le> real N * 2 ^ j" and N: "N < 2 ^ 53" and j: "j \<le> 900"
  shows "\<exists>y. to_double x = Finite y \<and> \<bar>y\<bar> \<le> real N * 2 ^ j"
proof (cases "x = 0")
  case True
  then show ?thesis by (simp add: to_double_def)
next
  case False
  let ?a = "\<bar>x\<bar>"
  let ?u = "ulp ?a"
  let ?y = "of_int (round_half_even (?a / ?u)) * ?u"
  have a: "0 < ?a" using False by simp
  from ulp_divides [OF a x N] obtain K where K: "real N * 2 ^ j = real K * ?u"
    by blast
  have u: "0 < ?u" by (rule ulp_pos)
  have "?a / ?u \<le> real K"
    using x K u by (simp add: pos_divide_le_eq)
  then have "?a / ?u \<le> of_int (int K)" by simp
  then have "round_half_even (?a / ?u) \<le> int K"
    by (rule round_half_even_le)
  then have "(of_int (round_half_even (?a / ?u)) :: real) \<le> real K"
    by (metis of_int_le_iff of_int_of_nat_eq)
  then have upper: "?y \<le> real N * 2 ^ j"
    unfolding K using u by (simp add: mult_right_mono)
  have "0 \<le> round_half_even (?a / ?u)"
    using a u by (intro round_half_even_nonneg) simp
  then have lower: "0 \<le> ?y" using u by simp
  have "real N * 2 ^ j < 2 ^ 53 * 2 ^ 900"
  proof -
    have "real N < 2 ^ 53" using N by (simp add: of_nat_less_numeral_power_cancel_iff)
    moreover have "(2::real) ^ j \<le> 2 ^ 900" using j by (intro power_increasing) simp_all
    ultimately show ?thesis
      by (intro mult_less_le_imp_less) simp_all
  qed
  also have "(2::real) ^ 53 * 2 ^ 900 = 2 ^ (53 + 900)" by (simp only: power_add)
  also have "\<dots> \<le> (2::real) ^ 1024" by (intro power_increasing) simp_all
  finally have "?y < 2 ^ 1024" using upper by linarith
  then have "to_double x = Finite (if x < 0 then - ?y else ?y)"
    using False by (simp add: to_double_def Let_def)
  with upper lower show ?thesis by auto
qed

lemma time_between_double:
  assumes "valid_incident inc"
  shows "\<exists>y. to_double (real_of_int (time_between inc)) = Finite y \<and> \<bar>y\<bar> \<le> real 1 * 2 ^ 54"
proof -
  have "\<bar>time_between inc\<bar> \<le> 2 ^ 54"
    using assms
    by (auto simp: time_between_def valid_incident_def valid_time_def split: option.splits)
  then have "\<bar>real_of_int (time_between inc)\<bar> \<le> real 1 * 2 ^ 54"
    by (metis abs_of_nonneg mult_1 of_int_abs of_int_le_iff of_int_numeral of_int_power
        of_nat_1 zero_le_numeral zero_le_power)
  then show ?thesis
    by (rule to_double_bound) simp_all
qed

lemma total_double:
  assumes "\<forall>inc \<in> set xs. valid_incident inc"
    and "\<bar>a\<bar> \<le> real k * 2 ^ 54" and "k + length xs < 2 ^ 53"
  shows "\<exists>t. foldl (\<lambda>sum inc. fl_add sum (to_double (real_of_int (time_between inc))))
              (Finite a) xs = Finite t \<and>
             \<bar>t\<bar> \<le> real (k + length xs) * 2 ^ 54"
  using assms
proof (induction xs arbitrary: a k)
  case Nil
  then show ?case by simp
next
  case (Cons x xs)
  from Cons.prems(1) obtain y where
    y: "to_double (real_of_int (time_between x)) = Finite y" "\<bar>y\<bar> \<le> real 1 * 2 ^ 54"
    using time_between_double [of x] by auto
  have "\<bar>a + y\<bar> \<le> real (Suc k) * 2 ^ 54"
    using Cons.prems(2) y(2) by (simp add: algebra_simps)
  moreover have k: "Suc k < 2 ^ 53" using Cons.prems(3) by simp
  ultimately obtain a' where
    a': "to_double (a + y) = Finite a'" "\<bar>a'\<bar> \<le> real (Suc k) * 2 ^ 54"
    using to_double_bound [of "a + y" "Suc k" 54] by auto
  have "\<exists>t. foldl (\<lambda>sum inc. fl_add sum (to_double (real_of_int (time_between inc))))
              (Finite a') xs = Finite t \<and>
             \<bar>t\<bar> \<le> real (Suc k + length xs) * 2 ^ 54"
    using Cons.prems(1,3) a'(2) by (intro Cons.IH) simp_all
  then show ?case
    by (simp add: y(1) a'(1))
qed

lemma calculateMTTR_double_finite:
  assumes "valid_store s"
  shows "\<exists>v. calculateMTTR_double s = Finite v \<and> \<bar>v\<bar> \<le> 2 ^ 54"
proof -
  let ?resolved = "filter (\<lambda>inc. resolutionTime inc \<noteq> None) s"
  show ?thesis
  proof (cases "?resolved = []")
    case True
    then show ?thesis by (simp add: calculateMTTR_double_def)
  next
    case False
    let ?n = "length ?resolved"
    have n: "0 < ?n" using False by simp
    have "?n \<le> length s" by simp
    also have "length s < 2 ^ 32" using assms by (simp add: valid_store_def)
    also have "(2::nat) ^ 32 \<le> 2 ^ 53" by (intro power_increasing) simp_all
    finally have small: "0 + ?n < 2 ^ 53" by simp
    have valid: "\<forall>inc \<in> set ?resolved. valid_incident inc"
      using assms by (simp add: valid_store_def list_all_iff)
    from total_double [OF valid _ small, of 0] obtain t where
      t: "foldl (\<lambda>sum inc. fl_add sum (to_double (real_of_int (time_between inc))))
            (Finite 0) ?resolved = Finite t" "\<bar>t\<bar> \<le> real ?n * 2 ^ 54"
      by auto
    have "\<bar>t / real ?n\<bar> \<le> real 1 * 2 ^ 54"
      using t(2) n by (simp add: pos_divide_le_eq mult.commute)
    then obtain q where q: "to_double (t / real ?n) = Finite q" "\<bar>q\<bar> \<le> real 1 * 2 ^ 54"
      using to_double_bound [of "t / real ?n" 1 54] by auto
    have "\<bar>q / 3600000\<bar> \<le> \<bar>q\<bar>" by simp
    with q(2) have "\<bar>q / 3600000\<bar> \<le> real 1 * 2 ^ 54" by linarith
    then obtain v where v: "to_double (q / 3600000) = Finite v" "\<bar>v\<bar> \<le> real 1 * 2 ^ 54"
      using to_double_bound [of "q / 3600000" 1 54] by auto
    have "calculateMTTR_double s = fl_div (fl_div (Finite t) (real ?n)) (1000 * 60 * 60)"
      using False by (simp only: calculateMTTR_double_def Let_def t(1) length_0_conv if_False)
    also have "fl_div (Finite t) (real ?n) = Finite q"
      using n q(1) by (simp add: fl_div_def)
    also have "fl_div (Finite q) (1000 * 60 * 60) = Finite v"
      using v(1) by (simp add: fl_div_def)
    finally show ?thesis using v(2) by simp
  qed
qed

text \<open>
  On the stores of the two examples of the mean time to recovery, the rounded computation
  gives the exact values.
\<close>

lemma calculateMTTR_double_examples:
  "calculateMTTR_double [example_incident 1 0 (Some 3600000) (Some ''disk''),
                         example_incident 2 1000 None None,
                         example_incident 3 2000 (Some 10802000) (Some ''net'')] = Finite 2"
  "calculateMTTR_double [example_incident 1 0 None None, example_incident 2 1000 None None] =
     Finite 0"
  by (simp_all add: calculateMTTR_double_def example_incident_def time_between_def double_eval)

subsection \<open>The report\<close>

lemma add_incident_section:
  "add_incident report inc = report @ report_section rca_when_falsy inc"
  by (simp add: add_incident_def report_section_def Let_def rca_or_pending_def
      rca_when_falsy_def resolution_or_unresolved_def)

lemma foldl_add_incident:
  "foldl add_incident report s = report @ concat (map (report_section rca_when_falsy) s)"
  by (induction s arbitrary: report) (simp_all add: add_incident_section)

lemma generateMarkdownReport_map:
  "generateMarkdownReport s =
     map_option (report_text rca_when_falsy s) (toFixed2 (calculateMTTR_double s))"
  by (cases "toFixed2 (calculateMTTR_double s)")
    (simp_all add: generateMarkdownReport_def foldl_add_incident report_text_def Let_def)

lemma is_digit_digit_char: "d < 10 \<Longrightarrow> is_digit (digit_char d)"
proof -
  assume "d < 10"
  then have "d = 0 \<or> d = 1 \<or> d = 2 \<or> d = 3 \<or> d = 4 \<or> d = 5 \<or> d = 6 \<or> d = 7 \<or>
      d = 8 \<or> d = 9"
    by arith
  then show ?thesis
    by (elim disjE) (simp_all add: is_digit_def digit_char_def)
qed

lemma show_nat_digits: "list_all is_digit (show_nat n) \<and> show_nat n \<noteq> []"
proof (induction n rule: show_nat.induct)
  case (1 n)
  show ?case
  proof (cases "n < 10")
    case True
    then show ?thesis
      by (subst (1 2) show_nat.simps) (simp add: is_digit_digit_char)
  next
    case False
    with "1.IH" show ?thesis
      by (subst (1 2) show_nat.simps) (simp add: is_digit_digit_char)
  qed
qed

lemma pad_start_digits:
  "list_all is_digit s \<Longrightarrow> list_all is_digit (pad_start n s) \<and> n \<le> length (pad_start n s)"
  by (auto simp: pad_start_def is_digit_def list_all_iff)

lemma two_decimals_digits:
  assumes digits: "list_all is_digit m" and len: "3 \<le> length m"
  shows "two_decimals (take (length m - 2) m @ ''.'' @ drop (length m - 2) m)"
    and "two_decimals (''-'' @ take (length m - 2) m @ ''.'' @ drop (length m - 2) m)"
proof -
  obtain ys b where ys: "m = ys @ [b]"
    using len by (cases m rule: rev_cases) simp_all
  obtain ip a where ip: "ys = ip @ [a]"
    using len ys by (cases ys rule: rev_cases) simp_all
  have m: "m = ip @ [a, b]" and ne: "ip \<noteq> []"
    using ys ip len by auto
  let ?body = "ip @ CHR ''.'' # [a, b]"
  have body: "take (length m - 2) m @ ''.'' @ drop (length m - 2) m = ?body"
    by (simp add: m)
  have d: "list_all is_digit ip" "is_digit a" "is_digit b"
    using digits by (simp_all add: m)
  have shape: "4 \<le> length ?body \<and> list_all is_digit (take (length ?body - 3) ?body) \<and>
      ?body ! (length ?body - 3) = CHR ''.'' \<and> is_digit (?body ! (length ?body - 2)) \<and>
      is_digit (?body ! (length ?body - 1))"
    using d ne by (cases ip) (simp_all add: nth_append)
  have "hd ?body \<noteq> CHR ''-''"
    using d(1) ne by (cases ip) (auto simp: is_digit_def)
  then have strip: "(case ?body of [] \<Rightarrow> [] | c # cs \<Rightarrow> if c = CHR ''-'' then cs else c # cs) = ?body"
    by (cases ?body) simp_all
  show "two_decimals (take (length m - 2) m @ ''.'' @ drop (length m - 2) m)"
    unfolding body two_decimals_def Let_def strip using shape by blast
  show "two_decimals (''-'' @ take (length m - 2) m @ ''.'' @ drop (length m - 2) m)"
    unfolding body two_decimals_def Let_def using shape by simp
qed

lemma toFixed2_two_decimals:
  assumes "\<bar>r\<bar> < 10 ^ 21"
  shows "\<exists>m. toFixed2 (Finite r) = Some m \<and> two_decimals m"
proof -
  define m where "m = pad_start 3 (show_nat (nat \<lfloor>\<bar>r\<bar> * 100 + 1 / 2\<rfloor>))"
  have m: "list_all is_digit m" "3 \<le> length m"
    unfolding m_def
    using pad_start_digits [of "show_nat (nat \<lfloor>\<bar>r\<bar> * 100 + 1 / 2\<rfloor>)" 3] show_nat_digits
    by simp_all
  have "toFixed2 (Finite r) =
      Some ((if r < 0 then ''-'' else []) @ take (length m - 2) m @ ''.'' @ drop (length m - 2) m)"
    using assms by (simp add: toFixed2_def Let_def m_def)
  then show ?thesis
    using two_decimals_digits [OF m] by (cases "r < 0") simp_all
qed

lemma calculateMTTR_double_two_decimals:
  assumes "valid_store s"
  shows "\<exists>m. toFixed2 (calculateMTTR_double s) = Some m \<and> two_decimals m"
proof -
  from calculateMTTR_double_finite [OF assms] obtain v where
    v: "calculateMTTR_double s = Finite v" "\<bar>v\<bar> \<le> 2 ^ 54"
    by blast
  have "(2::real) ^ 54 < 10 ^ 21" by simp
  with v(2) have "\<bar>v\<bar> < 10 ^ 21" by linarith
  then show ?thesis
    unfolding v(1) by (rule toFixed2_two_decimals)
qed

lemma report_section_differs:
  "rca inc = Some [] \<Longrightarrow> report_section rca_when_falsy inc \<noteq> report_section rca_when_absent inc"
  by (simp add: report_section_def rca_when_falsy_def rca_when_absent_def)

text \<open>
  C6, as stated: each section shows the root cause, or \<open>Pending\<close> when it is absent.
  For an incident resolved with the empty text as root cause, the root cause is not
  absent, and the report still shows \<open>Pending\<close>: it differs from the report that
  shows the text.
\<close>

theorem report_empty_rca_not_shown:
  "generateMarkdownReport [example_incident 1 0 (Some 3600000) (Some [])] \<noteq>
   map_option (report_text rca_when_absent [example_incident 1 0 (Some 3600000) (Some [])])
     (toFixed2 (calculateMTTR_double [example_incident 1 0 (Some 3600000) (Some [])]))"
proof -
  let ?inc = "example_incident 1 0 (Some 3600000) (Some [])"
  have "valid_store [?inc]"
    by (simp add: valid_store_def valid_incident_def valid_time_def example_incident_def)
  then obtain m where m: "toFixed2 (calculateMTTR_double [?inc]) = Some m"
    using calculateMTTR_double_two_decimals by blast
  have "rca ?inc = Some []" by (simp add: example_incident_def)
  then have "report_text rca_when_falsy [?inc] m \<noteq> report_text rca_when_absent [?inc] m"
    using report_section_differs [of ?inc] by (simp add: report_text_def)
  then show ?thesis
    by (simp add: generateMarkdownReport_map m)
qed

text \<open>
  C6, amended: for every store (an array of incidents whose times are time values of a
  \<^verbatim>\<open>Date\<close>), the report is the heading, then one section for each incident in the order of the store,
  showing the identifier, the title, the severity, the affected services joined by a comma
  and a space, the detection time in ISO 8601, the resolution time in ISO 8601 or
  \<open>Unresolved\<close> when absent, and the root cause or \<open>Pending\<close> when it is absent
  or the empty text; and then the line \<open>**MTTR:** X.XX hours\<close>, where \<open>X.XX\<close> is
  the double that \<open>calculateMTTR\<close> returns, written with exactly two decimal digits.
\<close>

theorem generateMarkdownReport_sections:
  assumes "valid_store incidents"
  shows "\<exists>mttr. toFixed2 (calculateMTTR_double incidents) = Some mttr \<and> two_decimals mttr \<and>
     generateMarkdownReport incidents = Some (report_text rca_when_falsy incidents mttr)"
  using calculateMTTR_double_two_decimals [OF assms] by (auto simp: generateMarkdownReport_map)

text \<open>Evaluation of the renderings on numerals, and known values of the two built-ins.\<close>

lemma replicate_numeral: "replicate (numeral k) x = x # replicate (pred_numeral k) x"
  by (simp add: numeral_eq_Suc)

lemmas show_nat_eval =
  show_nat.simps [of 0] show_nat.simps [of 1] show_nat.simps [of "Suc 0"]
  show_nat.simps [of "numeral k"] for k

lemmas render_eval = toISOString_def civil_from_days_def show_year_def pad_start_def
  show_int_def digit_char_def show_nat_eval replicate_numeral

lemma toISOString_examples:
  "toISOString 0 = ''1970-01-01T00:00:00.000Z''"
  "toISOString 1700000000000 = ''2023-11-14T22:13:20.000Z''"
  "toISOString 951782400000 = ''2000-02-29T00:00:00.000Z''"
  "toISOString (- 1) = ''1969-12-31T23:59:59.999Z''"
  "toISOString 8640000000000000 = ''+275760-09-13T00:00:00.000Z''"
  "toISOString (- 62198755200000) = ''-000001-01-01T00:00:00.000Z''"
  by (simp_all add: render_eval cong: let_weak_cong prod.case_cong_weak)

lemma toFixed2_examples:
  "toFixed2 (Finite 2) = Some ''2.00''"
  "toFixed2 (Finite (2 / 3)) = Some ''0.67''"
  "toFixed2 (Finite (1 / 200)) = Some ''0.01''"
  "toFixed2 (Finite (- (1 / 1000))) = Some ''-0.00''"
  "toFixed2 (Finite 1234.5678) = Some ''1234.57''"
  "toFixed2 (Finite 0) = Some ''0.00''"
  "toFixed2 (Finite (1131529406376837 / 1125899906842624)) = Some ''1.00''"
  "toFixed2 (Finite (1080863910568919 / 72057594037927936)) = Some ''0.01''"
  by (simp_all add: toFixed2_def render_eval Let_def)

text \<open>
  The report of three incidents: one resolved with a root cause, one unresolved, and one
  resolved with the empty text. Each of the two resolutions took 3,618,000 ms: the mean is
  the double nearest to 1.005, which is below 1.005, and the report shows 1.00.
\<close>

theorem generateMarkdownReport_sections_witness:
  "generateMarkdownReport
     [example_incident 1 0 (Some 3618000) (Some ''disk full''),
      example_incident 2 1000 None None,
      example_incident 3 2000 (Some 3620000) (Some [])] =
   Some (''# Incident Report\<newline>\<newline>'' @
         ''## Incident #1: Checkout outage\<newline>'' @
         ''- **Severity:** high\<newline>'' @
         ''- **Affected Services:** api, db\<newline>'' @
         ''- **Detection Time:** 1970-01-01T00:00:00.000Z\<newline>'' @
         ''- **Resolution Time:** 1970-01-01T01:00:18.000Z\<newline>'' @
         ''- **RCA:** disk full\<newline>\<newline>'' @
         ''## Incident #2: Checkout outage\<newline>'' @
         ''- **Severity:** high\<newline>'' @
         ''- **Affected Services:** api, db\<newline>'' @
         ''- **Detection Time:** 1970-01-01T00:00:01.000Z\<newline>'' @
         ''- **Resolution Time:** Unresolved\<newline>'' @
         ''- **RCA:** Pending\<newline>\<newline>'' @
         ''## Incident #3: Checkout outage\<newline>'' @
         ''- **Severity:** high\<newline>'' @
         ''- **Affected Services:** api, db\<newline>'' @
         ''- **Detection Time:** 1970-01-01T00:00:02.000Z\<newline>'' @
         ''- **Resolution Time:** 1970-01-01T01:00:20.000Z\<newline>'' @
         ''- **RCA:** Pending\<newline>\<newline>'' @
         ''**MTTR:** 1.00 hours\<newline>'')"
proof -
  let ?s = "[example_incident 1 0 (Some 3618000) (Some ''disk full''),
      example_incident 2 1000 None None,
      example_incident 3 2000 (Some 3620000) (Some [])]"
  have valid: "valid_store ?s"
    by (simp add: valid_store_def valid_incident_def valid_time_def example_incident_def)
  have "calculateMTTR_double ?s = Finite (1131529406376837 / 1125899906842624)"
    by (simp add: calculateMTTR_double_def example_incident_def time_between_def double_eval)
  then have mttr: "toFixed2 (calculateMTTR_double ?s) = Some ''1.00''"
    by (simp only: toFixed2_examples)
  have times: "toISOString 0 = ''1970-01-01T00:00:00.000Z''"
    "toISOString 1000 = ''1970-01-01T00:00:01.000Z''"
    "toISOString 2000 = ''1970-01-01T00:00:02.000Z''"
    "toISOString 3618000 = ''1970-01-01T01:00:18.000Z''"
    "toISOString 3620000 = ''1970-01-01T01:00:20.000Z''"
    by (simp_all add: render_eval cong: let_weak_cong prod.case_cong_weak)
  have ids: "show_int 1 = ''1''" "show_int 2 = ''2''" "show_int 3 = ''3''"
    by (simp_all add: render_eval)
  from generateMarkdownReport_sections [OF valid] mttr
  have "generateMarkdownReport ?s = Some (report_text rca_when_falsy ?s ''1.00'')"
    by auto
  then show ?thesis
    by (simp add: report_text_def report_section_def rca_when_falsy_def example_incident_def
        times ids)
qed

text \<open>
  C10: the report treats a falsy root cause as missing. For every incident of a store that
  is resolved with the empty text as root cause, the report is returned and contains, at
  the incident's place, a section that shows the resolution time in ISO 8601 and the root
  cause as \<open>Pending\<close>.
\<close>

theorem empty_rca_renders_pending:
  assumes "valid_store (earlier @ inc # later)"
    and "rca inc = Some []" and "resolutionTime inc = Some t"
  shows "\<exists>mttr. toFixed2 (calculateMTTR_double (earlier @ inc # later)) = Some mttr \<and>
     generateMarkdownReport (earlier @ inc # later) =
       Some (''# Incident Report\<newline>\<newline>'' @ concat (map (add_incident []) earlier) @
             ''## Incident #'' @ show_int (id_field inc) @ '': '' @ title inc @ ''\<newline>'' @
             ''- **Severity:** '' @ severity inc @ ''\<newline>'' @
             ''- **Affected Services:** '' @ join_with '', '' (affectedServices inc) @ ''\<newline>'' @
             ''- **Detection Time:** '' @ toISOString (detectionTime inc) @ ''\<newline>'' @
             ''- **Resolution Time:** '' @ toISOString t @ ''\<newline>'' @
             ''- **RCA:** Pending\<newline>\<newline>'' @
             concat (map (add_incident []) later) @
             ''**MTTR:** '' @ mttr @ '' hours\<newline>'')"
proof -
  have sect: "add_incident [] x = report_section rca_when_falsy x" for x
    by (simp add: add_incident_section)
  have sects: "concat (map (add_incident []) xs) = concat (map (report_section rca_when_falsy) xs)"
    for xs
    by (induction xs) (simp_all add: sect)
  have shown: "report_section rca_when_falsy inc =
     ''## Incident #'' @ show_int (id_field inc) @ '': '' @ title inc @ ''\<newline>'' @
     ''- **Severity:** '' @ severity inc @ ''\<newline>'' @
     ''- **Affected Services:** '' @ join_with '', '' (affectedServices inc) @ ''\<newline>'' @
     ''- **Detection Time:** '' @ toISOString (detectionTime inc) @ ''\<newline>'' @
     ''- **Resolution Time:** '' @ toISOString t @ ''\<newline>'' @
     ''- **RCA:** Pending\<newline>\<newline>''"
    using assms(2,3) by (simp add: report_section_def rca_when_falsy_def)
  from calculateMTTR_double_two_decimals [OF assms(1)] obtain mttr where
    mttr: "toFixed2 (calculateMTTR_double (earlier @ inc # later)) = Some mttr"
    by blast
  have "generateMarkdownReport (earlier @ inc # later) =
      Some (''# Incident Report\<newline>\<newline>'' @
            concat (map (report_section rca_when_falsy) earlier) @
            report_section rca_when_falsy inc @
            concat (map (report_section rca_when_falsy) later) @
            ''**MTTR:** '' @ mttr @ '' hours\<newline>'')"
    by (simp add: generateMarkdownReport_map mttr report_text_def)
  then have "generateMarkdownReport (earlier @ inc # later) =
      Some (''# Incident Report\<newline>\<newline>'' @ concat (map (add_incident []) earlier) @
            (''## Incident #'' @ show_int (id_field inc) @ '': '' @ title inc @ ''\<newline>'' @
             ''- **Severity:** '' @ severity inc @ ''\<newline>'' @
             ''- **Affected Services:** '' @ join_with '', '' (affectedServices inc) @ ''\<newline>'' @
             ''- **Detection Time:** '' @ toISOString (detectionTime inc) @ ''\<newline>'' @
             ''- **Resolution Time:** '' @ toISOString t @ ''\<newline>'' @
             ''- **RCA:** Pending\<newline>\<newline>'') @
            concat (map (add_incident []) later) @
            ''**MTTR:** '' @ mttr @ '' hours\<newline>'')"
    by (simp only: sects shown)
  with mttr show ?thesis
    by (intro exI [of _ mttr]) (simp only: append_assoc simp_thms)
qed

text \<open>
  An incident created and then resolved a minute later with the empty text, by the calls
  themselves, and the whole report of that store.
\<close>

theorem empty_rca_renders_pending_witness:
  "generateMarkdownReport
     (run_calls [(0, Create ''Checkout outage'' ''high'' [''api'', ''db'']),
                 (60000, Resolve (JNum 1) [])] []) =
   Some (''# Incident Report\<newline>\<newline>'' @
         ''## Incident #1: Checkout outage\<newline>'' @
         ''- **Severity:** high\<newline>'' @
         ''- **Affected Services:** api, db\<newline>'' @
         ''- **Detection Time:** 1970-01-01T00:00:00.000Z\<newline>'' @
         ''- **Resolution Time:** 1970-01-01T00:01:00.000Z\<newline>'' @
         ''- **RCA:** Pending\<newline>\<newline>'' @
         ''**MTTR:** 0.02 hours\<newline>'')"
proof -
  let ?inc = "example_incident 1 0 (Some 60000) (Some [])"
  have store: "run_calls [(0, Create ''Checkout outage'' ''high'' [''api'', ''db'']),
                 (60000, Resolve (JNum 1) [])] [] = [] @ ?inc # []"
    by (simp add: createIncident_eq resolveIncident_def Let_def example_incident_def)
  have valid: "valid_store ([] @ ?inc # [])"
    by (simp add: valid_store_def valid_incident_def valid_time_def example_incident_def)
  have fields: "rca ?inc = Some []" "resolutionTime ?inc = Some 60000"
    by (simp_all add: example_incident_def)
  have "calculateMTTR_double ([] @ ?inc # []) = Finite (4803839602528529 / 288230376151711744)"
    by (simp add: calculateMTTR_double_def example_incident_def time_between_def double_eval)
  then have mttr: "toFixed2 (calculateMTTR_double ([] @ ?inc # [])) = Some ''0.02''"
    by (simp add: toFixed2_def render_eval Let_def)
  have times: "toISOString 0 = ''1970-01-01T00:00:00.000Z''"
    "toISOString 60000 = ''1970-01-01T00:01:00.000Z''"
    by (simp_all add: render_eval cong: let_weak_cong prod.case_cong_weak)
  have ids: "show_int 1 = ''1''"
    by (simp add: render_eval)
  from empty_rca_renders_pending [OF valid fields] mttr
  show ?thesis
    unfolding store by (auto simp: example_incident_def times ids)
qed

end
